theory Spec2Isabelle
  imports Main "HOL-Library.Sublist"
begin

section \<open>Python values used by webcapture\<close>

text \<open>
  Python strings are modelled as HOL strings: lists of characters, a character being a
  code point in the range 0..255. Exceptions are values of \<open>py_exception\<close>; a call that
  may raise returns \<open>py_exception + 'a\<close>, with \<open>Inl\<close> for the raised exception.
\<close>

datatype py_exception = ValueError | EOFError | FileNotFoundError | OtherError string

text \<open>\<open>s.startswith(p)\<close>\<close>

definition py_startswith :: "string \<Rightarrow> string \<Rightarrow> bool" where
  "py_startswith p s = (take (length p) s = p)"

text \<open>
  \<open>s.replace(old, new)\<close>: every occurrence of \<open>old\<close> is replaced, scanning from the
  left and continuing after each replaced occurrence. For an empty \<open>old\<close> Python puts
  \<open>new\<close> before every character and at the end.
\<close>

fun py_replace :: "string \<Rightarrow> string \<Rightarrow> string \<Rightarrow> string" where
  "py_replace old new [] = (if old = [] then new else [])"
| "py_replace old new (c # cs) =
     (if old = [] then new @ concat (map (\<lambda>x. x # new) (c # cs))
      else if py_startswith old (c # cs)
        then new @ py_replace old new (drop (length old) (c # cs))
      else c # py_replace old new cs)"

section \<open>URL validation and the filename stem\<close>

text \<open>
  \<open>urlparse\<close> belongs to Python's standard library, not to webcapture. The functions
  of webcapture that call it take it as the parameter \<open>parse\<close>: a function from the URL
  text to the fields webcapture reads (\<open>scheme\<close> and \<open>netloc\<close>), or to the exception
  it raises.
\<close>

record parse_result =
  scheme :: string
  netloc :: string

type_synonym url_parser = "string \<Rightarrow> py_exception + parse_result"

text \<open>
  \<open>validate_url\<close> (webcapture.py, lines 67-78). The \<open>try\<close> block turns every
  exception of the parser into the result \<open>None\<close>.
\<close>

definition validate_url :: "url_parser \<Rightarrow> string \<Rightarrow> string option" where
  "validate_url parse url =
     (let url = (if \<not> (py_startswith ''http://'' url \<or> py_startswith ''https://'' url)
                 then ''https://'' @ url else url)
      in case parse url of
           Inl e \<Rightarrow> None
         | Inr result \<Rightarrow>
             if \<not> (scheme result \<noteq> [] \<and> netloc result \<noteq> []) then None else Some url)"

text \<open>
  \<open>sanitize_filename\<close> (lines 81-86). There is no \<open>try\<close> here: an exception of the
  parser propagates.
\<close>

definition sanitize_filename :: "url_parser \<Rightarrow> string \<Rightarrow> py_exception + string" where
  "sanitize_filename parse url =
     (case parse url of
        Inl e \<Rightarrow> Inl e
      | Inr parsed \<Rightarrow>
          (let domain = py_replace ''www.'' [] (netloc parsed);
               domain = py_replace ''.'' ''-'' domain
           in Inr domain))"

text \<open>
  A model of the library's \<open>urlparse\<close>, following CPython's \<open>urlsplit\<close>
  for the two fields read here: leading control characters and spaces are dropped, tab,
  carriage return and line feed are removed, a scheme is the text before the first colon
  if it starts with an ASCII letter and consists of scheme characters, and the netloc is
  what follows \<open>//\<close> up to the first of \<open>/ ? #\<close>. Unmatched square brackets
  raise \<open>ValueError\<close>. The theorems about \<open>validate_url\<close> and
  \<open>sanitize_filename\<close> hold for every parser; this one is used at concrete URLs.
\<close>

definition is_ascii_alpha :: "char \<Rightarrow> bool" where
  "is_ascii_alpha c =
     (let n = (of_char c :: nat) in (65 \<le> n \<and> n \<le> 90) \<or> (97 \<le> n \<and> n \<le> 122))"

definition is_ascii_digit :: "char \<Rightarrow> bool" where
  "is_ascii_digit c = (let n = (of_char c :: nat) in 48 \<le> n \<and> n \<le> 57)"

definition scheme_char :: "char \<Rightarrow> bool" where
  "scheme_char c = (is_ascii_alpha c \<or> is_ascii_digit c \<or> c \<in> set ''+-.'')"

text \<open>\<open>c.lower()\<close> on code points below 256.\<close>

definition py_lower_char :: "char \<Rightarrow> char" where
  "py_lower_char c =
     (let n = (of_char c :: nat)
      in if (65 \<le> n \<and> n \<le> 90) \<or> (192 \<le> n \<and> n \<le> 222 \<and> n \<noteq> 215)
         then char_of (n + 32) else c)"

definition py_lower :: "string \<Rightarrow> string" where
  "py_lower s = map py_lower_char s"

definition urlparse :: url_parser where
  "urlparse url0 =
     (let url = dropWhile (\<lambda>c. (of_char c :: nat) \<le> 32) url0;
          url = filter (\<lambda>c. c \<notin> {CHR 0x09, CHR 0x0D, CHR 0x0A}) url;
          pre = takeWhile (\<lambda>c. c \<noteq> CHR '':'') url;
          has_scheme = (length pre < length url \<and> pre \<noteq> [] \<and>
                        is_ascii_alpha (hd pre) \<and> list_all scheme_char pre);
          sch = (if has_scheme then py_lower pre else []);
          url = (if has_scheme then drop (length pre + 1) url else url)
      in if take 2 url = ''//''
         then (let nl = takeWhile (\<lambda>c. c \<notin> set ''/?#'') (drop 2 url)
               in if (CHR ''['' \<in> set nl) \<noteq> (CHR '']'' \<in> set nl) then Inl ValueError
                  else Inr \<lparr>scheme = sch, netloc = nl\<rparr>)
         else Inr \<lparr>scheme = sch, netloc = []\<rparr>)"


text \<open>
  The stem that \<open>sanitize_filename\<close> computes from a netloc, and the two readings
  it is compared with: the replacement of dots character by character, and the stem as
  the specification words it (one leading \<open>www.\<close> stripped, then dots replaced).
\<close>

definition host_stem :: "string \<Rightarrow> string" where
  "host_stem h = py_replace ''.'' ''-'' (py_replace ''www.'' [] h)"




text \<open>
  The URL that the specification says is parsed: \<open>https://\<close> is put in front exactly
  when the input has neither prefix.
\<close>

definition normalized_url :: "string \<Rightarrow> string" where
  "normalized_url url =
     (if prefix ''http://'' url \<or> prefix ''https://'' url then url else ''https://'' @ url)"

text \<open>
  The host inside a netloc, as the \<open>hostname\<close> field of the library's parse result
  reads it (before it is put in lower case): the text after the last \<open>@\<close>, up to the
  first colon, or between the square brackets when there are any. The netloc also holds
  the user information and the port, so it can be non-empty while the host is empty.
\<close>

definition netloc_host :: "string \<Rightarrow> string" where
  "netloc_host nl =
     (let hostinfo = rev (takeWhile (\<lambda>c. c \<noteq> CHR ''@'') (rev nl))
      in if CHR ''['' \<in> set hostinfo
         then takeWhile (\<lambda>c. c \<noteq> CHR '']'') (drop 1 (dropWhile (\<lambda>c. c \<noteq> CHR ''['') hostinfo))
         else takeWhile (\<lambda>c. c \<noteq> CHR '':'') hostinfo)"

section \<open>The keypress reader and the menu\<close>

text \<open>
  \<open>s.strip()\<close> removes the whitespace of Python's \<open>str.isspace\<close> from both ends;
  below 256 these are the code points 9 to 13, 28 to 32, 133 and 160.
\<close>

definition py_isspace :: "char \<Rightarrow> bool" where
  "py_isspace c =
     (let n = (of_char c :: nat)
      in (9 \<le> n \<and> n \<le> 13) \<or> (28 \<le> n \<and> n \<le> 32) \<or> n = 133 \<or> n = 160)"

definition py_strip :: "string \<Rightarrow> string" where
  "py_strip s = rev (dropWhile py_isspace (rev (dropWhile py_isspace s)))"

text \<open>
  Standard input as \<open>get_key\<close> meets it. On a terminal, \<open>Tty cs\<close> holds the characters
  that the reads deliver, in order (a read past the end returns fewer characters). When
  the terminal calls fail (standard input is no terminal), the bare \<open>except\<close> runs
  \<open>input()\<close>: \<open>NoTty (Some l)\<close> holds the next line without its line end, and
  \<open>NoTty None\<close> is the end of input, where \<open>input()\<close> raises \<open>EOFError\<close>.
\<close>

datatype stdin = Tty string | NoTty "string option"

text \<open>\<open>get_key\<close> (lines 325-354). The result is a Python string.\<close>

fun get_key :: "stdin \<Rightarrow> py_exception + string" where
  "get_key (Tty cs) =
     (let ch = take 1 cs
      in if ch = [CHR 0x1B]
         then (let ch = ch @ take 2 (drop 1 cs)
               in if ch = [CHR 0x1B, CHR ''['', CHR ''A''] then Inr ''up''
                  else if ch = [CHR 0x1B, CHR ''['', CHR ''B''] then Inr ''down''
                  else Inr ch)
         else if ch = [CHR 0x0D] \<or> ch = [CHR 0x0A] then Inr ''enter''
         else if ch = [CHR 0x03] then Inr ''quit''
         else Inr ch)"
| "get_key (NoTty None) = Inl EOFError"
| "get_key (NoTty (Some line)) = Inr (py_strip line)"

text \<open>
  The key event that a returned string stands for: the comparisons that the menu loop
  makes (lines 374-386), any other string being \<open>Other\<close>.
\<close>

datatype key_event = Up | Down | Enter | Quit | Other string

definition decode_key :: "string \<Rightarrow> key_event" where
  "decode_key key =
     (if key = ''up'' then Up
      else if key = ''down'' then Down
      else if key = ''enter'' then Enter
      else if key = ''quit'' then Quit
      else Other key)"

text \<open>
  The event that the specification gives to a line read without a terminal: a bare line is
  Enter, any other line is classified by its first characters as on a terminal.
\<close>

definition claimed_line_event :: "string \<Rightarrow> py_exception + key_event" where
  "claimed_line_event line =
     (if line = [] then Inr Enter else map_sum id decode_key (get_key (Tty line)))"

text \<open>
  \<open>interactive_mode\<close> (lines 357-386). \<open>menu_key\<close> is the body of the loop for one key:
  the menu goes on with a selected index, or \<open>handle_menu_selection\<close> is called with
  the index, or the process exits. \<open>interactive_loop\<close> runs it over the keys that
  \<open>get_key\<close> returns; when they are used up the loop is still browsing.
\<close>

definition options :: "string list" where
  "options =
     [''Single width (default: desktop 1920px)'',
      ''Multiple widths (mobile, tablet, desktop)'',
      ''Custom width(s)'',
      ''Advanced options'',
      ''Exit'']"

datatype menu_state = Browsing int | Handled int | Exited

definition menu_key :: "int \<Rightarrow> string \<Rightarrow> menu_state" where
  "menu_key selected key =
     (if key = ''up'' then Browsing ((selected - 1) mod int (length options))
      else if key = ''down'' then Browsing ((selected + 1) mod int (length options))
      else if key = ''enter'' then (if selected = 4 then Exited else Handled selected)
      else if key = ''quit'' then Exited
      else Browsing selected)"

fun interactive_loop :: "int \<Rightarrow> string list \<Rightarrow> menu_state" where
  "interactive_loop selected [] = Browsing selected"
| "interactive_loop selected (key # keys) =
     (case menu_key selected key of
        Browsing selected' \<Rightarrow> interactive_loop selected' keys
      | Handled choice \<Rightarrow> Handled choice
      | Exited \<Rightarrow> Exited)"

definition interactive_mode :: "string list \<Rightarrow> menu_state" where
  "interactive_mode keys = interactive_loop 0 keys"

section \<open>Widths, formats and the capture request\<close>

text \<open>
  What the program prints through its helpers: the constructor is the helper used
  (\<open>print_error\<close>, \<open>print_success\<close>, \<open>print_info\<close>, \<open>print_warning\<close>), the
  string is its message without the colour codes. \<open>Plain\<close> is the summary line that the
  batch loop prints directly. Prompts and the banner of a run are not recorded.
\<close>

datatype message = Error string | Success string | Info string | Warning string | Plain string

text \<open>\<open>s.split(c)\<close> for a one-character separator: an empty string gives one empty field.\<close>

fun py_split :: "char \<Rightarrow> string \<Rightarrow> string list" where
  "py_split sep [] = [[]]"
| "py_split sep (c # cs) =
     (if c = sep then [] # py_split sep cs
      else (case py_split sep cs of
              [] \<Rightarrow> [[c]]
            | part # parts \<Rightarrow> (c # part) # parts))"

text \<open>
  The built-in \<open>int\<close> is a parameter of the functions that call it, of type
  \<open>int_parser\<close>: \<open>None\<close> stands for the \<open>ValueError\<close> that the callers catch.
  \<open>py_int\<close> is the conversion of a decimal literal as \<open>int\<close> does it: whitespace
  around it is dropped, one sign may lead, and single underscores may stand between
  digits. It is used at concrete inputs.
\<close>

type_synonym int_parser = "string \<Rightarrow> int option"

fun decimal_literal :: "string \<Rightarrow> bool" where
  "decimal_literal [] = False"
| "decimal_literal [c] = is_ascii_digit c"
| "decimal_literal (c # d # r) =
     (is_ascii_digit c \<and> (if d = CHR ''_'' then decimal_literal r else decimal_literal (d # r)))"

definition decimal_value :: "string \<Rightarrow> int" where
  "decimal_value ds =
     foldl (\<lambda>acc c. if c = CHR ''_'' then acc else 10 * acc + (int (of_char c) - 48)) 0 ds"

definition py_int :: int_parser where
  "py_int s =
     (let t = py_strip s;
          negative = (take 1 t = ''-'');
          body = (if take 1 t = ''-'' \<or> take 1 t = ''+'' then drop 1 t else t)
      in if decimal_literal body
         then Some (if negative then - decimal_value body else decimal_value body)
         else None)"

text \<open>The table \<open>PRESETS\<close> (lines 30-40) and the default width (line 42).\<close>

definition PRESETS :: "(string \<times> int) list" where
  "PRESETS =
     [(''mobile'', 375),
      (''tablet'', 768),
      (''small'', 1024),
      (''laptop'', 1440),
      (''medium'', 1366),
      (''desktop'', 1920),
      (''large'', 2560),
      (''ultrawide'', 3440),
      (''presentation'', 1280)]"

definition DEFAULT_WIDTH :: int where
  "DEFAULT_WIDTH = 1920"

text \<open>
  The width loop of \<open>cli_mode\<close> (lines 541-549): the list \<open>widths\<close> and the messages
  are passed along. \<open>cli_parse_widths\<close> is lines 539-552, \<open>args.widths\<close> being
  \<open>None\<close> when the option is absent.
\<close>

fun cli_widths_loop ::
  "int_parser \<Rightarrow> string list \<Rightarrow> int list \<Rightarrow> message list \<Rightarrow> int list \<times> message list" where
  "cli_widths_loop int_of [] widths out = (widths, out)"
| "cli_widths_loop int_of (item # items) widths out =
     (let item = py_lower (py_strip item)
      in case map_of PRESETS item of
           Some w \<Rightarrow> cli_widths_loop int_of items (widths @ [w]) out
         | None \<Rightarrow>
             (case int_of item of
                Some n \<Rightarrow> cli_widths_loop int_of items (widths @ [n]) out
              | None \<Rightarrow>
                  cli_widths_loop int_of items widths
                    (out @ [Warning (''Skipping invalid width: '' @ item)])))"

definition cli_parse_widths :: "int_parser \<Rightarrow> string option \<Rightarrow> int list \<times> message list" where
  "cli_parse_widths int_of args_widths =
     (let (widths, out) =
            (case args_widths of
               None \<Rightarrow> ([], [])
             | Some s \<Rightarrow> if s = [] then ([], [])
                        else cli_widths_loop int_of (py_split CHR '','' s) [] [])
      in (if widths = [] then [DEFAULT_WIDTH] else widths, out))"

text \<open>The format check of \<open>cli_mode\<close> (lines 554-558).\<close>

definition cli_format :: "string \<Rightarrow> string \<times> message list" where
  "cli_format args_format =
     (let output_format = py_lower args_format
      in if output_format \<notin> set [''png'', ''jpeg'', ''webp'']
         then (''png'', [Warning (''Invalid format: '' @ args_format @ '', using png'')])
         else (output_format, []))"

text \<open>
  The capture request: the values that a front end hands to the capture functions. The
  command line arrives as \<open>args\<close>. A front end returns what it printed and either the
  request, or the end of the process (\<open>sys.exit\<close>), or an early \<open>return False\<close>.
\<close>

record request =
  req_url :: string
  req_widths :: "int list"
  req_format :: string
  req_dark :: bool
  req_wait :: string
  req_interactive :: bool

record args =
  arg_url :: string
  arg_widths :: "string option"
  arg_format :: string
  arg_dark :: bool
  arg_wait :: string
  arg_interactive :: bool

datatype built = SysExit int | ReturnFalse | Request request

text \<open>\<open>cli_mode\<close> up to the captures (lines 530-566, without the summary it prints).\<close>

definition cli_request :: "url_parser \<Rightarrow> int_parser \<Rightarrow> args \<Rightarrow> message list \<times> built" where
  "cli_request parse int_of a =
     (case validate_url parse (arg_url a) of
        None \<Rightarrow> ([Error (''Invalid URL: '' @ arg_url a)], SysExit 1)
      | Some u \<Rightarrow>
          (let (widths, out1) = cli_parse_widths int_of (arg_widths a);
               (output_format, out2) = cli_format (arg_format a)
           in (out1 @ out2,
               Request \<lparr>req_url = u, req_widths = widths, req_format = output_format,
                        req_dark = arg_dark a, req_wait = arg_wait a,
                        req_interactive = arg_interactive a\<rparr>)))"

text \<open>
  The lines that the user types at the prompts of the interactive front end, one field for
  each \<open>input\<close> call whose result is used; a prompt that is not reached ignores its
  field.
\<close>

record answers =
  ans_url :: string
  ans_custom :: string
  ans_widths :: string
  ans_format :: string
  ans_dark :: string
  ans_wait :: string
  ans_interactive :: string

text \<open>
  The width loop of \<open>advanced_options\<close> (lines 472-481) and the function up to the
  captures (lines 463-505).
\<close>

fun advanced_widths_loop ::
  "int_parser \<Rightarrow> string list \<Rightarrow> int list \<Rightarrow> message list \<Rightarrow> int list \<times> message list" where
  "advanced_widths_loop int_of [] widths out = (widths, out)"
| "advanced_widths_loop int_of (item # items) widths out =
     (let item = py_lower (py_strip item)
      in case map_of PRESETS item of
           Some w \<Rightarrow> advanced_widths_loop int_of items (widths @ [w]) out
         | None \<Rightarrow>
             (case int_of item of
                Some n \<Rightarrow> advanced_widths_loop int_of items (widths @ [n]) out
              | None \<Rightarrow>
                  advanced_widths_loop int_of items widths
                    (out @ [Warning (''Skipping invalid: '' @ item)])))"

definition advanced_options :: "int_parser \<Rightarrow> string \<Rightarrow> answers \<Rightarrow> message list \<times> built" where
  "advanced_options int_of u ans =
     (let widths_input = py_strip (ans_widths ans);
          (widths, out) = advanced_widths_loop int_of (py_split CHR '','' widths_input) [] []
      in if widths = [] then (out @ [Error ''No valid widths''], ReturnFalse)
         else
           (let fmt = (let f = py_lower (py_strip (ans_format ans))
                       in if f = [] then ''png'' else f);
                dark = (py_lower (py_strip (ans_dark ans)) = ''y'');
                wait = (let w = py_lower (py_strip (ans_wait ans))
                        in if w = [] then ''networkidle'' else w);
                interactive = (py_lower (py_strip (ans_interactive ans)) = ''y'')
            in (out,
                Request \<lparr>req_url = u, req_widths = widths, req_format = fmt,
                         req_dark = dark, req_wait = wait, req_interactive = interactive\<rparr>)))"

text \<open>
  \<open>handle_menu_selection\<close> up to the captures (lines 389-438). The custom widths
  (line 415) are converted all or none: one token that \<open>int\<close> rejects makes the whole
  line invalid.
\<close>

definition custom_widths :: "int_parser \<Rightarrow> string \<Rightarrow> int list option" where
  "custom_widths int_of custom = those (map (\<lambda>w. int_of (py_strip w)) (py_split CHR '','' custom))"

definition menu_request :: "string \<Rightarrow> answers \<Rightarrow> int list \<Rightarrow> message list \<times> built" where
  "menu_request u ans widths =
     (let fmt = (let f = py_lower (py_strip (ans_format ans)) in if f = [] then ''png'' else f);
          fmt = (if fmt \<notin> set [''png'', ''jpeg'', ''webp''] then ''png'' else fmt);
          dark = (py_lower (py_strip (ans_dark ans)) = ''y'');
          interactive = (py_lower (py_strip (ans_interactive ans)) = ''y'')
      in ([],
          Request \<lparr>req_url = u, req_widths = widths, req_format = fmt, req_dark = dark,
                   req_wait = ''networkidle'', req_interactive = interactive\<rparr>))"

definition handle_menu_selection ::
  "url_parser \<Rightarrow> int_parser \<Rightarrow> int \<Rightarrow> answers \<Rightarrow> message list \<times> built" where
  "handle_menu_selection parse int_of choice ans =
     (case validate_url parse (py_strip (ans_url ans)) of
        None \<Rightarrow> ([Error ''Invalid URL''], ReturnFalse)
      | Some u \<Rightarrow>
          (let (out, b) =
                 (if choice = 0 then menu_request u ans [DEFAULT_WIDTH]
                  else if choice = 1 then menu_request u ans [375, 768, 1920]
                  else if choice = 2 then
                    (case custom_widths int_of (py_strip (ans_custom ans)) of
                       None \<Rightarrow> ([Error ''Invalid width format''], ReturnFalse)
                     | Some widths \<Rightarrow> menu_request u ans widths)
                  else if choice = 3 then advanced_options int_of u ans
                  else menu_request u ans [])
           in (Info (''URL: '' @ u) # out, b)))"

text \<open>
  The reading of a width token in the specification: a preset name stands for the width
  that the specification lists for it, any other token for the integer that \<open>int\<close>
  reads from it, and a token that is neither has no width.
\<close>

definition claimed_preset :: "string \<Rightarrow> int option" where
  "claimed_preset t =
     (if t = ''mobile'' then Some 375
      else if t = ''tablet'' then Some 768
      else if t = ''small'' then Some 1024
      else if t = ''laptop'' then Some 1440
      else if t = ''medium'' then Some 1366
      else if t = ''desktop'' then Some 1920
      else if t = ''large'' then Some 2560
      else if t = ''ultrawide'' then Some 3440
      else if t = ''presentation'' then Some 1280
      else None)"

definition token_width :: "int_parser \<Rightarrow> string \<Rightarrow> int option" where
  "token_width int_of t = (case claimed_preset t of Some w \<Rightarrow> Some w | None \<Rightarrow> int_of t)"

text \<open>
  The tokens that each front end reads widths from, as it passes them to the preset table
  and to \<open>int\<close>, and the condition that every token which \<open>int\<close> accepts has a
  positive value.
\<close>

definition cli_tokens :: "string option \<Rightarrow> string list" where
  "cli_tokens args_widths =
     (case args_widths of
        None \<Rightarrow> []
      | Some s \<Rightarrow> if s = [] then []
                 else map (\<lambda>item. py_lower (py_strip item)) (py_split CHR '','' s))"

definition custom_tokens :: "answers \<Rightarrow> string list" where
  "custom_tokens ans = map py_strip (py_split CHR '','' (py_strip (ans_custom ans)))"

definition advanced_tokens :: "answers \<Rightarrow> string list" where
  "advanced_tokens ans =
     map (\<lambda>item. py_lower (py_strip item)) (py_split CHR '','' (py_strip (ans_widths ans)))"

definition literals_positive :: "int_parser \<Rightarrow> string list \<Rightarrow> bool" where
  "literals_positive int_of toks =
     list_all (\<lambda>t. case int_of t of Some n \<Rightarrow> 0 < n | None \<Rightarrow> True) toks"

text \<open>A command line and a set of interactive answers, used as concrete inputs.\<close>

definition example_args :: args where
  "example_args =
     \<lparr>arg_url = ''example.com'', arg_widths = Some ''mobile,1024'', arg_format = ''png'',
      arg_dark = False, arg_wait = ''networkidle'', arg_interactive = False\<rparr>"

definition example_answers :: answers where
  "example_answers =
     \<lparr>ans_url = ''example.com'', ans_custom = ''1920, 375'', ans_widths = ''tablet, 800'',
      ans_format = ''gif'', ans_dark = ''n'', ans_wait = [], ans_interactive = ''n''\<rparr>"

section \<open>Captures in batch mode\<close>

text \<open>\<open>str(n)\<close> for an integer.\<close>

fun decimal_digits :: "nat \<Rightarrow> string" where
  "decimal_digits n =
     (if n < 10 then [char_of (48 + n)]
      else decimal_digits (n div 10) @ [char_of (48 + n mod 10)])"

declare decimal_digits.simps [simp del]

definition py_str :: "int \<Rightarrow> string" where
  "py_str i = (if i < 0 then CHR ''-'' # decimal_digits (nat (- i)) else decimal_digits (nat i))"

text \<open>
  Output files are named by their file name in the desktop directory, which is the same
  for all of them. \<open>path_suffix\<close> and \<open>with_suffix\<close> are \<open>Path.suffix\<close> and
  \<open>Path.with_suffix\<close> on a file name: the suffix starts at the last dot, unless that
  dot is the first or the last character.
\<close>

definition path_suffix :: "string \<Rightarrow> string" where
  "path_suffix name =
     (let ext = rev (takeWhile (\<lambda>c. c \<noteq> CHR ''.'') (rev name))
      in if CHR ''.'' \<in> set name \<and> ext \<noteq> [] \<and> length ext + 1 < length name
         then CHR ''.'' # ext else [])"

definition with_suffix :: "string \<Rightarrow> string \<Rightarrow> string" where
  "with_suffix name sfx = take (length name - length (path_suffix name)) name @ sfx"

text \<open>
  \<open>get_output_filename\<close> (lines 89-94); \<open>now\<close> is the time stamp that
  \<open>datetime.now().strftime\<close> returns at the call.
\<close>

definition get_output_filename ::
  "url_parser \<Rightarrow> string \<Rightarrow> string \<Rightarrow> int \<Rightarrow> string \<Rightarrow> py_exception + string" where
  "get_output_filename parse now url width output_format =
     (case sanitize_filename parse url of
        Inl e \<Rightarrow> Inl e
      | Inr base \<Rightarrow> Inr (base @ ''_'' @ py_str width @ ''px_'' @ now @ ''.'' @ output_format))"

text \<open>
  The state that a capture changes: the files in the desktop directory and the messages
  printed so far.
\<close>

record state =
  disk :: "string set"
  printed :: "message list"

definition say :: "message list \<Rightarrow> state \<Rightarrow> state" where
  "say ms st = st\<lparr>printed := printed st @ ms\<rparr>"

text \<open>
  What the collaborators do during one capture. The browser library is missing
  (\<open>ImportError\<close>), or a browser call up to and including the screenshot raises an
  exception, or the screenshot is written and closing raises, or all calls succeed. The
  conversion tool converts, or is not found (\<open>FileNotFoundError\<close>), or exits with a
  non-zero status (\<open>CalledProcessError\<close>), or the call raises another exception. The strings are the texts of the exceptions.
\<close>

datatype browser_outcome = ImportFails | BrowserFails string | CloseFails string | BrowserOk

datatype convert_outcome = Converted | ToolMissing | ToolFailed string | ConvertRaises string

record capture_env =
  timestamp :: string
  browser :: browser_outcome
  convert :: convert_outcome

text \<open>\<open>_convert_to_webp\<close> (lines 295-311).\<close>

definition convert_to_webp ::
  "convert_outcome \<Rightarrow> string \<Rightarrow> string \<Rightarrow> state \<Rightarrow> py_exception + state" where
  "convert_to_webp outcome png_path webp_path st =
     (case outcome of
        Converted \<Rightarrow> Inr (st\<lparr>disk := insert webp_path (disk st) - {png_path}\<rparr>)
      | ToolMissing \<Rightarrow>
          Inr (say [Error ''ImageMagick not found. Install with: brew install imagemagick'',
                    Info (''Keeping PNG file: '' @ png_path)] st)
      | ToolFailed e \<Rightarrow>
          Inr (say [Error (''WebP conversion failed: '' @ e),
                    Info (''Keeping PNG file: '' @ png_path)] st)
      | ConvertRaises e \<Rightarrow> Inl (OtherError e))"

text \<open>
  \<open>capture_screenshot\<close> with \<open>interactive=False\<close> (lines 193-226 and 274-292), as the
  batch loops call it. The result is the returned truth value and the new state.
\<close>

definition capture_screenshot :: "capture_env \<Rightarrow> string \<Rightarrow> state \<Rightarrow> bool \<times> state" where
  "capture_screenshot env output_path st =
     (case browser env of
        ImportFails \<Rightarrow>
          (False, say [Error ''Playwright not installed. Run: cd webcapture && ./install.sh''] st)
      | BrowserFails e \<Rightarrow> (False, say [Error (''Screenshot failed: '' @ e)] st)
      | outcome \<Rightarrow>
          (let shot =
                 (if py_lower (path_suffix output_path) = ''.webp''
                  then (let temp_png = with_suffix output_path ''.png''
                        in convert_to_webp (convert env) temp_png output_path
                             (st\<lparr>disk := insert temp_png (disk st)\<rparr>))
                  else Inr (st\<lparr>disk := insert output_path (disk st)\<rparr>))
           in case shot of
                Inl exn \<Rightarrow>
                  (False,
                   say [Error (''Screenshot failed: '' @
                          (case exn of OtherError e \<Rightarrow> e | _ \<Rightarrow> []))]
                     (st\<lparr>disk := insert (with_suffix output_path ''.png'') (disk st)\<rparr>))
              | Inr st' \<Rightarrow>
                  (case outcome of
                     CloseFails e \<Rightarrow> (False, say [Error (''Screenshot failed: '' @ e)] st')
                   | _ \<Rightarrow> (True, st'))))"

text \<open>
  The batch loop of \<open>cli_mode\<close> (lines 573-582): \<open>envs i\<close> is what happens at the
  \<open>i\<close>-th width. \<open>output_path.stat()\<close> raises \<open>FileNotFoundError\<close> when the file
  does not exist; nothing in \<open>cli_mode\<close> catches it. The size is left out of the message
  \<open>Saved\<close>. \<open>cli_batch\<close> adds the summary (line 584).
\<close>

fun batch_loop ::
  "url_parser \<Rightarrow> (nat \<Rightarrow> capture_env) \<Rightarrow> string \<Rightarrow> string \<Rightarrow> int list \<Rightarrow> nat \<Rightarrow> nat \<Rightarrow> state
   \<Rightarrow> py_exception + nat \<times> state" where
  "batch_loop parse envs u output_format [] i success_count st = Inr (success_count, st)"
| "batch_loop parse envs u output_format (width # widths) i success_count st =
     (case get_output_filename parse (timestamp (envs i)) u width output_format of
        Inl e \<Rightarrow> Inl e
      | Inr output_path \<Rightarrow>
          (let st = say [Info (''Capturing '' @ py_str width @ ''px...'')] st;
               (ok, st) = capture_screenshot (envs i) output_path st
           in if ok
              then (if output_path \<in> disk st
                    then batch_loop parse envs u output_format widths (i + 1) (success_count + 1)
                           (say [Success (''Saved: '' @ output_path)] st)
                    else Inl FileNotFoundError)
              else batch_loop parse envs u output_format widths (i + 1) success_count
                     (say [Error (''Failed: '' @ py_str width @ ''px'')] st)))"

definition cli_batch ::
  "url_parser \<Rightarrow> (nat \<Rightarrow> capture_env) \<Rightarrow> request \<Rightarrow> state \<Rightarrow> py_exception + state" where
  "cli_batch parse envs r st =
     (case batch_loop parse envs (req_url r) (req_format r) (req_widths r) 0 0 st of
        Inl e \<Rightarrow> Inl e
      | Inr (success_count, st') \<Rightarrow>
          Inr (say [Plain (''Completed: '' @ py_str (int success_count) @ ''/'' @
                      py_str (int (length (req_widths r))) @ '' screenshots'')] st'))"

text \<open>
  Whether a capture returns \<open>True\<close> for a format, read off the collaborators: the
  browser calls succeed and, for \<open>webp\<close>, the conversion raises nothing that
  \<open>_convert_to_webp\<close> does not catch. \<open>keeps_png\<close> holds when the conversion tool is
  missing or fails, so that the PNG stays and no \<open>webp\<close> file is written.
\<close>

definition captured :: "capture_env \<Rightarrow> string \<Rightarrow> bool" where
  "captured e output_format =
     (browser e = BrowserOk \<and>
      (output_format = ''webp'' \<longrightarrow> (case convert e of ConvertRaises m \<Rightarrow> False | _ \<Rightarrow> True)))"

definition keeps_png :: "capture_env \<Rightarrow> bool" where
  "keeps_png e = (case convert e of ToolMissing \<Rightarrow> True | ToolFailed m \<Rightarrow> True | _ \<Rightarrow> False)"

text \<open>
  Concrete runs: an empty desktop, a request for two widths in the format \<open>webp\<close> and
  the same request in the format \<open>png\<close>, and collaborators for which the first capture
  times out in the browser, every later one succeeds, and the conversion tool is not
  installed.
\<close>

definition empty_state :: state where
  "empty_state = \<lparr>disk = {}, printed = []\<rparr>"

definition webp_request :: "int list \<Rightarrow> request" where
  "webp_request ws =
     \<lparr>req_url = ''https://example.com'', req_widths = ws, req_format = ''webp'',
      req_dark = False, req_wait = ''networkidle'', req_interactive = False\<rparr>"

definition png_request :: "int list \<Rightarrow> request" where
  "png_request ws =
     \<lparr>req_url = ''https://example.com'', req_widths = ws, req_format = ''png'',
      req_dark = False, req_wait = ''networkidle'', req_interactive = False\<rparr>"

definition no_convert_tool :: "nat \<Rightarrow> capture_env" where
  "no_convert_tool i =
     \<lparr>timestamp = ''2024-01-02_030405'', browser = BrowserOk, convert = ToolMissing\<rparr>"

definition timeout_first :: "nat \<Rightarrow> capture_env" where
  "timeout_first i =
     \<lparr>timestamp = ''2024-01-02_030405'',
      browser = (if i = 0 then BrowserFails ''Timeout 60000ms exceeded.'' else BrowserOk),
      convert = ToolMissing\<rparr>"

section \<open>Properties of the string operations\<close>

lemma startswith_prefix: "py_startswith p s = prefix p s"
  unfolding py_startswith_def
  by (metis prefix_def take_is_prefix append_eq_conv_conj)






section \<open>The filename stem\<close>







lemma sanitize_filename_host_stem:
  "parse url = Inr parsed \<Longrightarrow> sanitize_filename parse url = Inr (host_stem (netloc parsed))"
  by (simp add: sanitize_filename_def host_stem_def)




section \<open>URL validation\<close>

lemma validate_url_unfold:
  "validate_url parse url =
     (case parse (normalized_url url) of
        Inl e \<Rightarrow> None
      | Inr r \<Rightarrow> if scheme r \<noteq> [] \<and> netloc r \<noteq> [] then Some (normalized_url url) else None)"
  by (auto simp: validate_url_def normalized_url_def startswith_prefix Let_def split: sum.splits)

lemma normalized_url_has_prefix:
  "prefix ''http://'' (normalized_url url) \<or> prefix ''https://'' (normalized_url url)"
  by (simp add: normalized_url_def)

lemma normalized_url_idem: "normalized_url (normalized_url url) = normalized_url url"
  using normalized_url_has_prefix [of url] by (subst normalized_url_def) simp

lemma netloc_host_nonempty: "netloc_host nl \<noteq> [] \<Longrightarrow> nl \<noteq> []"
  by (auto simp: netloc_host_def)

text \<open>
  Claim C2, as stated, fails in one direction: the claim says that validation succeeds only
  if the parse result has a non-empty host, and the code tests the \<open>netloc\<close> field
  (line 74). For the input \<open>:80\<close> the URL \<open>https://:80\<close> is parsed with the netloc
  \<open>:80\<close>, which is a port without a host, and \<open>validate_url\<close> returns the URL.
\<close>

theorem validate_url_empty_host_counterexample:
  "urlparse ''https://:80'' = Inr \<lparr>scheme = ''https'', netloc = '':80''\<rparr>
   \<and> netloc_host '':80'' = []
   \<and> validate_url urlparse '':80'' = Some ''https://:80''"
  by code_simp

text \<open>
  Claim C2, amended: for every input string, \<open>validate_url\<close> parses the input with
  \<open>https://\<close> put in front exactly when the input has neither an \<open>http://\<close> nor an
  \<open>https://\<close> prefix; it returns that URL if and only if the parse result has a non-empty
  scheme and a non-empty \<open>netloc\<close> (the text between \<open>//\<close> and the path, with user
  information and port, whether or not a host is in it), and the failure value \<open>None\<close>
  otherwise. An exception raised by the parser becomes \<open>None\<close> too: the function has no
  other result.
\<close>

theorem validate_url_correct:
  "(validate_url parse url = Some v \<longleftrightarrow>
      v = normalized_url url \<and> (\<exists>r. parse v = Inr r \<and> scheme r \<noteq> [] \<and> netloc r \<noteq> []))
   \<and> (validate_url parse url = None \<longleftrightarrow>
      \<not> (\<exists>r. parse (normalized_url url) = Inr r \<and> scheme r \<noteq> [] \<and> netloc r \<noteq> []))
   \<and> (\<forall>e. parse (normalized_url url) = Inl e \<longrightarrow> validate_url parse url = None)"
  by (auto simp: validate_url_unfold split: sum.splits)

theorem validate_url_correct_witness:
  "normalized_url ''[abc'' = ''https://[abc''
   \<and> urlparse ''https://[abc'' = Inl ValueError
   \<and> validate_url urlparse ''[abc'' = None
   \<and> validate_url urlparse ''example.com'' = Some ''https://example.com''"
proof -
  have n: "normalized_url ''[abc'' = ''https://[abc''" by code_simp
  have p: "urlparse ''https://[abc'' = Inl ValueError" by code_simp
  have "validate_url urlparse ''[abc'' = None"
    using validate_url_correct [of urlparse "''[abc''" "''https://[abc''"] n p by simp
  moreover have "validate_url urlparse ''example.com'' = Some ''https://example.com''"
    by code_simp
  ultimately show ?thesis using n p by simp
qed

text \<open>
  Claim C10: validation is idempotent. Whenever \<open>validate_url\<close> succeeds on an input,
  it succeeds on the URL it returned and returns that URL unchanged.
\<close>

theorem validate_url_idempotent:
  "validate_url parse url = Some v \<Longrightarrow> validate_url parse v = Some v"
  by (auto simp: validate_url_unfold normalized_url_idem split: sum.splits if_splits)

theorem validate_url_idempotent_witness:
  "validate_url urlparse ''example.com'' = Some ''https://example.com''
   \<and> validate_url urlparse ''https://example.com'' = Some ''https://example.com''"
proof -
  have h: "validate_url urlparse ''example.com'' = Some ''https://example.com''"
    by code_simp
  from validate_url_idempotent [OF h] h show ?thesis by simp
qed

section \<open>The keypress reader\<close>

lemma decode_key_iff:
  "decode_key k = Up \<longleftrightarrow> k = ''up''"
  "decode_key k = Down \<longleftrightarrow> k = ''down''"
  "decode_key k = Enter \<longleftrightarrow> k = ''enter''"
  "decode_key k = Quit \<longleftrightarrow> k = ''quit''"
  by (simp_all add: decode_key_def)

lemma decode_key_single: "decode_key [c] = Other [c]"
  by (simp add: decode_key_def)

lemma decode_key_Nil: "decode_key [] = Other []"
  by (simp add: decode_key_def)

lemma py_strip_Nil: "py_strip [] = []"
  by (simp add: py_strip_def)

text \<open>
  Claim C3, as stated, fails in its second half. Without a terminal \<open>get_key\<close> returns
  the stripped line as it is: a bare line gives the empty string, which is not the string
  \<open>enter\<close> and lets the menu loop go round without acting, and a line that starts with
  the byte 0x03 gives that line, not \<open>quit\<close>.
\<close>

theorem get_key_fallback_counterexample:
  "get_key (NoTty (Some [])) = Inr []
   \<and> map_sum id decode_key (get_key (NoTty (Some []))) = Inr (Other [])
   \<and> claimed_line_event [] = Inr Enter
   \<and> map_sum id decode_key (get_key (NoTty (Some []))) \<noteq> claimed_line_event []
   \<and> map_sum id decode_key (get_key (NoTty (Some [CHR 0x03]))) = Inr (Other [CHR 0x03])
   \<and> claimed_line_event [CHR 0x03] = Inr Quit"
  by code_simp

text \<open>
  Claim C3, amended: on a terminal the reader returns the key event of the table: the bytes
  0x1b 0x5b 0x41 give Up, 0x1b 0x5b 0x42 give Down, carriage return or newline gives Enter,
  0x03 gives Quit, any other single byte gives Other of that byte. Without a terminal it
  reads a line and returns it stripped of surrounding whitespace and unclassified: the
  event is Up, Down, Enter or Quit only when the stripped line is the word \<open>up\<close>,
  \<open>down\<close>, \<open>enter\<close> or \<open>quit\<close>, and a bare line is the empty string, which is
  none of the four.
\<close>

theorem get_key_events:
  "map_sum id decode_key (get_key (Tty (CHR 0x1B # CHR 0x5B # CHR 0x41 # rest))) = Inr Up
   \<and> map_sum id decode_key (get_key (Tty (CHR 0x1B # CHR 0x5B # CHR 0x42 # rest))) = Inr Down
   \<and> map_sum id decode_key (get_key (Tty (CHR 0x0D # rest))) = Inr Enter
   \<and> map_sum id decode_key (get_key (Tty (CHR 0x0A # rest))) = Inr Enter
   \<and> map_sum id decode_key (get_key (Tty (CHR 0x03 # rest))) = Inr Quit
   \<and> (c \<notin> {CHR 0x1B, CHR 0x0D, CHR 0x0A, CHR 0x03} \<longrightarrow>
        get_key (Tty (c # rest)) = Inr [c]
        \<and> map_sum id decode_key (get_key (Tty (c # rest))) = Inr (Other [c]))
   \<and> get_key (NoTty (Some line)) = Inr (py_strip line)
   \<and> (map_sum id decode_key (get_key (NoTty (Some line))) = Inr Up
        \<longleftrightarrow> py_strip line = ''up'')
   \<and> (map_sum id decode_key (get_key (NoTty (Some line))) = Inr Down
        \<longleftrightarrow> py_strip line = ''down'')
   \<and> (map_sum id decode_key (get_key (NoTty (Some line))) = Inr Enter
        \<longleftrightarrow> py_strip line = ''enter'')
   \<and> (map_sum id decode_key (get_key (NoTty (Some line))) = Inr Quit
        \<longleftrightarrow> py_strip line = ''quit'')
   \<and> map_sum id decode_key (get_key (NoTty (Some []))) = Inr (Other [])"
  by (simp add: decode_key_iff py_strip_Nil decode_key_single decode_key_Nil)

theorem get_key_events_witness:
  "CHR ''x'' \<notin> {CHR 0x1B, CHR 0x0D, CHR 0x0A, CHR 0x03}
   \<and> get_key (Tty ''x'') = Inr ''x''
   \<and> map_sum id decode_key (get_key (Tty ''x'')) = Inr (Other ''x'')
   \<and> py_strip '' up '' = ''up''
   \<and> map_sum id decode_key (get_key (NoTty (Some '' up ''))) = Inr Up"
proof -
  have s: "py_strip '' up '' = ''up''" by code_simp
  show ?thesis
    using get_key_events [of "[]" "CHR ''x''" "'' up ''"] s by simp
qed

section \<open>The menu\<close>

lemma length_options: "int (length options) = 5"
  by (simp add: options_def)

lemma up_mod5: "((s - 1) mod 5 + d - u) mod 5 = (s + d - (1 + u)) mod (5::int)"
proof -
  have "((s - 1) mod 5 + d - u) mod 5 = ((s - 1) mod 5 + (d - u)) mod 5"
    by (simp only: add_diff_eq)
  also have "\<dots> = ((s - 1) + (d - u)) mod 5"
    by (rule mod_add_left_eq)
  also have "(s - 1) + (d - u) = s + d - (1 + u)"
    by simp
  finally show ?thesis .
qed

lemma down_mod5: "((s + 1) mod 5 + d - u) mod 5 = (s + (1 + d) - u) mod (5::int)"
proof -
  have "((s + 1) mod 5 + d - u) mod 5 = ((s + 1) mod 5 + (d - u)) mod 5"
    by (simp only: add_diff_eq)
  also have "\<dots> = ((s + 1) + (d - u)) mod 5"
    by (rule mod_add_left_eq)
  also have "(s + 1) + (d - u) = s + (1 + d) - u"
    by simp
  finally show ?thesis .
qed

lemma menu_key_up: "menu_key s ''up'' = Browsing ((s - 1) mod 5)"
  by (simp add: menu_key_def length_options)

lemma menu_key_down: "menu_key s ''down'' = Browsing ((s + 1) mod 5)"
  by (simp add: menu_key_def length_options)

lemma menu_key_other:
  "k \<noteq> ''up'' \<Longrightarrow> k \<noteq> ''down'' \<Longrightarrow> k \<noteq> ''enter'' \<Longrightarrow> k \<noteq> ''quit''
   \<Longrightarrow> menu_key s k = Browsing s"
  by (simp add: menu_key_def)

lemma interactive_loop_browsing:
  assumes "0 \<le> s" and "s < 5" and "''enter'' \<notin> set keys" and "''quit'' \<notin> set keys"
  shows "interactive_loop s keys =
           Browsing ((s + int (count_list keys ''down'') - int (count_list keys ''up'')) mod 5)"
  using assms
proof (induction keys arbitrary: s)
  case Nil
  then show ?case by simp
next
  case (Cons k ks)
  have ks: "''enter'' \<notin> set ks" "''quit'' \<notin> set ks" and k: "k \<noteq> ''enter''" "k \<noteq> ''quit''"
    using Cons.prems by auto
  let ?d = "int (count_list ks ''down'')" and ?u = "int (count_list ks ''up'')"
  show ?case
  proof (cases "k = ''up''")
    case True
    have r: "0 \<le> (s - 1) mod 5" "(s - 1) mod 5 < 5" by simp_all
    have c: "int (count_list (k # ks) ''down'') = ?d"
            "int (count_list (k # ks) ''up'') = 1 + ?u"
      using True by simp_all
    have "interactive_loop s (k # ks) = interactive_loop ((s - 1) mod 5) ks"
      using True by (simp add: menu_key_up)
    also have "\<dots> = Browsing (((s - 1) mod 5 + ?d - ?u) mod 5)"
      by (rule Cons.IH [OF r ks])
    also have "\<dots> = Browsing ((s + ?d - (1 + ?u)) mod 5)"
      by (simp only: up_mod5)
    finally show ?thesis by (simp only: c)
  next
    case nu: False
    show ?thesis
    proof (cases "k = ''down''")
      case True
      have r: "0 \<le> (s + 1) mod 5" "(s + 1) mod 5 < 5" by simp_all
      have c: "int (count_list (k # ks) ''down'') = 1 + ?d"
              "int (count_list (k # ks) ''up'') = ?u"
        using True by simp_all
      have "interactive_loop s (k # ks) = interactive_loop ((s + 1) mod 5) ks"
        using True by (simp add: menu_key_down)
      also have "\<dots> = Browsing (((s + 1) mod 5 + ?d - ?u) mod 5)"
        by (rule Cons.IH [OF r ks])
      also have "\<dots> = Browsing ((s + (1 + ?d) - ?u) mod 5)"
        by (simp only: down_mod5)
      finally show ?thesis by (simp only: c)
    next
      case False
      have c: "int (count_list (k # ks) ''down'') = ?d"
              "int (count_list (k # ks) ''up'') = ?u"
        using nu False by simp_all
      have "menu_key s k = Browsing s" using nu False k by (simp add: menu_key_other)
      then have "interactive_loop s (k # ks) = interactive_loop s ks" by simp
      also have "\<dots> = Browsing ((s + ?d - ?u) mod 5)"
        by (rule Cons.IH [OF Cons.prems(1,2) ks])
      finally show ?thesis by (simp only: c)
    qed
  qed
qed

text \<open>
  Claim C9: the selected index changes only on Up and Down and wraps modulo the number of
  options. Up at index 0 gives the last index and Down at the last index gives 0; inside
  the range Up and Down move by one; a key that is none of Up, Down, Enter, Quit leaves
  the index as it is; Enter and Quit end the loop without changing it (Enter hands the
  index on as it stands, or exits on the last option). Over a run of keys without Enter
  and Quit the index is the start index moved by the number of Downs minus the number
  of Ups, modulo the number of options; \<open>interactive_mode\<close> starts at index 0.
\<close>

theorem menu_index_wraps:
  "menu_key 0 ''up'' = Browsing (int (length options) - 1)
   \<and> menu_key (int (length options) - 1) ''down'' = Browsing 0
   \<and> (0 < s \<and> s < int (length options) \<longrightarrow> menu_key s ''up'' = Browsing (s - 1))
   \<and> (0 \<le> s \<and> s < int (length options) - 1 \<longrightarrow> menu_key s ''down'' = Browsing (s + 1))
   \<and> (key \<notin> {''up'', ''down'', ''enter'', ''quit''} \<longrightarrow> menu_key s key = Browsing s)
   \<and> menu_key s ''enter'' = (if s = 4 then Exited else Handled s)
   \<and> menu_key s ''quit'' = Exited
   \<and> (0 \<le> s \<and> s < int (length options) \<and> ''enter'' \<notin> set keys \<and> ''quit'' \<notin> set keys \<longrightarrow>
        interactive_loop s keys =
          Browsing ((s + int (count_list keys ''down'') - int (count_list keys ''up''))
                      mod int (length options)))
   \<and> (''enter'' \<notin> set keys \<and> ''quit'' \<notin> set keys \<longrightarrow>
        interactive_mode keys =
          Browsing ((int (count_list keys ''down'') - int (count_list keys ''up''))
                      mod int (length options)))"
proof (intro conjI impI)
  show "interactive_mode keys =
          Browsing ((int (count_list keys ''down'') - int (count_list keys ''up''))
                      mod int (length options))"
    if "''enter'' \<notin> set keys \<and> ''quit'' \<notin> set keys"
  proof -
    from that have "interactive_loop 0 keys =
        Browsing ((0 + int (count_list keys ''down'') - int (count_list keys ''up'')) mod 5)"
      by (intro interactive_loop_browsing) simp_all
    then show ?thesis
      by (simp only: length_options interactive_mode_def add_0)
  qed
  show "interactive_loop s keys =
          Browsing ((s + int (count_list keys ''down'') - int (count_list keys ''up''))
                      mod int (length options))"
    if "0 \<le> s \<and> s < int (length options) \<and> ''enter'' \<notin> set keys \<and> ''quit'' \<notin> set keys"
  proof -
    from that have "0 \<le> s" "s < 5" "''enter'' \<notin> set keys" "''quit'' \<notin> set keys"
      by (simp_all add: length_options)
    then have "interactive_loop s keys =
        Browsing ((s + int (count_list keys ''down'') - int (count_list keys ''up'')) mod 5)"
      by (rule interactive_loop_browsing)
    then show ?thesis
      by (simp only: length_options)
  qed
qed (simp_all add: menu_key_def length_options)

theorem menu_index_wraps_witness:
  "menu_key 2 ''up'' = Browsing 1
   \<and> menu_key 2 ''down'' = Browsing 3
   \<and> menu_key 2 ''x'' = Browsing 2
   \<and> interactive_loop 0 [''up'', ''x'', ''up'', ''down'', ''up''] = Browsing 3
   \<and> interactive_mode [''up'', ''x'', ''up'', ''down'', ''up''] = Browsing 3"
proof -
  have l: "int (length options) = 5" by (simp add: options_def)
  have a: "menu_key 2 ''up'' = Browsing 1 \<and> menu_key 2 ''down'' = Browsing 3
           \<and> menu_key 2 ''x'' = Browsing 2"
    using menu_index_wraps [of 2 "''x''" "[]"] l by simp
  have b: "interactive_loop 0 [''up'', ''x'', ''up'', ''down'', ''up''] = Browsing 3"
    using menu_index_wraps [of 0 "''x''" "[''up'', ''x'', ''up'', ''down'', ''up'']"] l
    by (simp del: interactive_loop.simps)
  from a b show ?thesis by (simp only: interactive_mode_def)
qed

section \<open>Width lists\<close>

lemma PRESETS_claimed: "map_of PRESETS t = claimed_preset t"
  by (simp add: PRESETS_def claimed_preset_def)

lemma claimed_preset_pos: "claimed_preset t = Some w \<Longrightarrow> 0 < w"
  by (simp add: claimed_preset_def split: if_splits)

lemma token_width_pos:
  assumes "token_width int_of t = Some w"
    and "case int_of t of Some n \<Rightarrow> 0 < n | None \<Rightarrow> True"
  shows "0 < w"
proof (cases "claimed_preset t")
  case None
  then show ?thesis using assms by (simp add: token_width_def)
next
  case (Some p)
  then show ?thesis using assms claimed_preset_pos [of t p] by (simp add: token_width_def)
qed

lemma cli_widths_loop_eq:
  "cli_widths_loop int_of items widths out =
     (widths @ List.map_filter (token_width int_of)
                 (map (\<lambda>item. py_lower (py_strip item)) items),
      out @ map (\<lambda>t. Warning (''Skipping invalid width: '' @ t))
              (filter (\<lambda>t. token_width int_of t = None)
                 (map (\<lambda>item. py_lower (py_strip item)) items)))"
proof (induction items arbitrary: widths out)
  case Nil
  show ?case by (simp add: map_filter_simps)
next
  case (Cons item items)
  show ?case
    by (cases "claimed_preset (py_lower (py_strip item))";
        cases "int_of (py_lower (py_strip item))")
       (simp_all add: Cons.IH PRESETS_claimed token_width_def map_filter_simps)
qed

lemma advanced_widths_loop_eq:
  "advanced_widths_loop int_of items widths out =
     (widths @ List.map_filter (token_width int_of)
                 (map (\<lambda>item. py_lower (py_strip item)) items),
      out @ map (\<lambda>t. Warning (''Skipping invalid: '' @ t))
              (filter (\<lambda>t. token_width int_of t = None)
                 (map (\<lambda>item. py_lower (py_strip item)) items)))"
proof (induction items arbitrary: widths out)
  case Nil
  show ?case by (simp add: map_filter_simps)
next
  case (Cons item items)
  show ?case
    by (cases "claimed_preset (py_lower (py_strip item))";
        cases "int_of (py_lower (py_strip item))")
       (simp_all add: Cons.IH PRESETS_claimed token_width_def map_filter_simps)
qed

lemma cli_parse_widths_eq:
  "cli_parse_widths int_of ws =
     (let vals = List.map_filter (token_width int_of) (cli_tokens ws)
      in (if vals = [] then [1920] else vals,
          map (\<lambda>t. Warning (''Skipping invalid width: '' @ t))
            (filter (\<lambda>t. token_width int_of t = None) (cli_tokens ws))))"
  by (cases ws)
     (simp_all add: cli_parse_widths_def cli_tokens_def cli_widths_loop_eq DEFAULT_WIDTH_def
        map_filter_simps Let_def)

lemma map_filter_token_width_pos:
  "literals_positive int_of toks \<Longrightarrow>
   list_all (\<lambda>w. 0 < w) (List.map_filter (token_width int_of) toks)"
proof (induction toks)
  case Nil
  show ?case by (simp add: map_filter_simps)
next
  case (Cons t toks)
  then have t: "case int_of t of Some n \<Rightarrow> 0 < n | None \<Rightarrow> True"
    and rest: "list_all (\<lambda>w. 0 < w) (List.map_filter (token_width int_of) toks)"
    by (simp_all add: literals_positive_def)
  show ?case
  proof (cases "token_width int_of t")
    case None
    then show ?thesis using rest by (simp add: map_filter_simps)
  next
    case (Some w)
    then have "0 < w" using t by (rule token_width_pos)
    then show ?thesis using Some rest by (simp add: map_filter_simps)
  qed
qed

lemma those_pos:
  "those (map int_of toks) = Some ws \<Longrightarrow> literals_positive int_of toks \<Longrightarrow>
   list_all (\<lambda>w. 0 < w) ws"
proof (induction toks arbitrary: ws)
  case Nil
  then show ?case by simp
next
  case (Cons t toks)
  then show ?case
    by (auto simp: literals_positive_def split: option.splits)
qed

text \<open>
  Claim C8: the width list of the command line. The table of presets in the code is the
  table of the specification. Each comma-separated token, stripped and in lower case, gives
  its preset width if it is a preset name, else the integer that \<open>int\<close> reads from it,
  and else nothing but a warning that names it; the other tokens are kept, in order. When
  nothing is left (or the option is absent or empty) the list is the one default width
  1920.
\<close>

theorem cli_parse_widths_tokens:
  "map_of PRESETS = claimed_preset
   \<and> cli_parse_widths int_of ws =
       (let vals = List.map_filter (token_width int_of) (cli_tokens ws)
        in (if vals = [] then [1920] else vals,
            map (\<lambda>t. Warning (''Skipping invalid width: '' @ t))
              (filter (\<lambda>t. token_width int_of t = None) (cli_tokens ws))))"
  using cli_parse_widths_eq [of int_of ws] PRESETS_claimed by auto

theorem cli_parse_widths_tokens_witness:
  "cli_tokens (Some ''mobile, 1024 ,abc,Desktop'') = [''mobile'', ''1024'', ''abc'', ''desktop'']
   \<and> map (token_width py_int) [''mobile'', ''1024'', ''abc'', ''desktop'']
        = [Some 375, Some 1024, None, Some 1920]
   \<and> cli_parse_widths py_int (Some ''mobile, 1024 ,abc,Desktop'')
        = ([375, 1024, 1920], [Warning ''Skipping invalid width: abc''])
   \<and> cli_parse_widths py_int (Some ''abc'') = ([1920], [Warning ''Skipping invalid width: abc''])"
proof -
  have t: "cli_tokens (Some ''mobile, 1024 ,abc,Desktop'')
             = [''mobile'', ''1024'', ''abc'', ''desktop'']"
    by code_simp
  have u: "cli_tokens (Some ''abc'') = [''abc'']"
    by code_simp
  have w: "map (token_width py_int) [''mobile'', ''1024'', ''abc'', ''desktop'']
             = [Some 375, Some 1024, None, Some 1920]"
    by code_simp
  have "cli_parse_widths py_int (Some ''mobile, 1024 ,abc,Desktop'')
          = ([375, 1024, 1920], [Warning ''Skipping invalid width: abc''])"
    using cli_parse_widths_tokens [of py_int "Some ''mobile, 1024 ,abc,Desktop''"] w
    by (simp add: t map_filter_simps)
  moreover have "cli_parse_widths py_int (Some ''abc'')
          = ([1920], [Warning ''Skipping invalid width: abc''])"
    using cli_parse_widths_tokens [of py_int "Some ''abc''"] w
    by (simp add: u map_filter_simps)
  ultimately show ?thesis using t w by simp
qed

section \<open>Widths of a capture request\<close>

lemma cli_request_widths:
  assumes "cli_request parse int_of a = (out, Request r)"
  shows "req_widths r = fst (cli_parse_widths int_of (arg_widths a))"
  using assms
  by (auto simp: cli_request_def Let_def split: option.splits prod.splits)

lemma cli_parse_widths_pos:
  assumes "literals_positive int_of (cli_tokens ws)"
  shows "fst (cli_parse_widths int_of ws) \<noteq> []
         \<and> list_all (\<lambda>w. 0 < w) (fst (cli_parse_widths int_of ws))"
  using map_filter_token_width_pos [OF assms]
  by (simp add: cli_parse_widths_eq Let_def)

lemma advanced_options_widths:
  assumes "advanced_options int_of u ans = (out, Request r)"
  shows "req_widths r = List.map_filter (token_width int_of) (advanced_tokens ans)
         \<and> req_widths r \<noteq> []"
  using assms
  by (auto simp: advanced_options_def advanced_widths_loop_eq advanced_tokens_def Let_def
           split: if_splits)

lemma menu_request_widths:
  "menu_request u ans widths = (out, Request r) \<Longrightarrow> req_widths r = widths"
  by (auto simp: menu_request_def Let_def)

lemma handle_menu_selection_widths:
  assumes "handle_menu_selection parse int_of choice ans = (out, Request r)"
  shows "req_widths r = [1920] \<or> req_widths r = [375, 768, 1920] \<or> req_widths r = []
         \<or> custom_widths int_of (py_strip (ans_custom ans)) = Some (req_widths r)
         \<or> (\<exists>out'. advanced_options int_of (req_url r) ans = (out', Request r))"
proof -
  from assms obtain u where u: "validate_url parse (py_strip (ans_url ans)) = Some u"
    by (auto simp: handle_menu_selection_def split: option.splits)
  consider "choice = 0" | "choice = 1" | "choice = 2" | "choice = 3"
    | "choice \<noteq> 0" "choice \<noteq> 1" "choice \<noteq> 2" "choice \<noteq> 3"
    by fastforce
  then show ?thesis
  proof cases
    case 1
    with assms u show ?thesis
      by (auto simp: handle_menu_selection_def DEFAULT_WIDTH_def split: prod.splits
               dest: menu_request_widths)
  next
    case 2
    with assms u show ?thesis
      by (auto simp: handle_menu_selection_def split: prod.splits dest: menu_request_widths)
  next
    case 3
    with assms u show ?thesis
      by (auto simp: handle_menu_selection_def split: prod.splits option.splits
               dest: menu_request_widths)
  next
    case 4
    with assms u have a: "advanced_options int_of u ans = (tl out, Request r)"
      by (auto simp: handle_menu_selection_def split: prod.splits)
    then have "req_url r = u"
      by (auto simp: advanced_options_def Let_def split: prod.splits if_splits)
    with a show ?thesis by blast
  next
    case 5
    with assms u show ?thesis
      by (auto simp: handle_menu_selection_def split: prod.splits dest: menu_request_widths)
  qed
qed

text \<open>
  Claim C5, as stated, fails: no path checks the sign of a width. The command line
  \<open>--widths -5,0\<close> builds a request with the widths \<open>-5\<close> and \<open>0\<close>.
\<close>

theorem cli_request_widths_counterexample:
  "cli_request urlparse py_int
     \<lparr>arg_url = ''example.com'', arg_widths = Some ''-5,0'', arg_format = ''png'',
      arg_dark = False, arg_wait = ''networkidle'', arg_interactive = False\<rparr>
   = ([], Request \<lparr>req_url = ''https://example.com'', req_widths = [- 5, 0],
                   req_format = ''png'', req_dark = False, req_wait = ''networkidle'',
                   req_interactive = False\<rparr>)
   \<and> \<not> list_all (\<lambda>w. 0 < w) [- 5, 0 :: int]"
  by code_simp

text \<open>
  Claim C5, amended: every capture request's widths field is a sequence of integers, and a
  sequence of positive integers whenever every token of the width input that \<open>int\<close>
  accepts has a positive value. Preset widths and the defaults are positive; the sign of a
  literal is checked on none of the three paths (the \<open>--widths\<close> list, the custom-width
  prompt, the advanced-options prompt). The list is not empty on the command line and in
  the advanced options.
\<close>

theorem request_widths_positive:
  "(cli_request parse int_of a = (out, Request r)
      \<and> literals_positive int_of (cli_tokens (arg_widths a))
     \<longrightarrow> req_widths r \<noteq> [] \<and> list_all (\<lambda>w. 0 < w) (req_widths r))
   \<and> (advanced_options int_of u ans = (out, Request r)
      \<and> literals_positive int_of (advanced_tokens ans)
     \<longrightarrow> req_widths r \<noteq> [] \<and> list_all (\<lambda>w. 0 < w) (req_widths r))
   \<and> (handle_menu_selection parse int_of choice ans = (out, Request r)
      \<and> literals_positive int_of (custom_tokens ans)
      \<and> literals_positive int_of (advanced_tokens ans)
     \<longrightarrow> list_all (\<lambda>w. 0 < w) (req_widths r))"
proof -
  have 1: "cli_request parse int_of a = (out, Request r)
      \<and> literals_positive int_of (cli_tokens (arg_widths a))
     \<longrightarrow> req_widths r \<noteq> [] \<and> list_all (\<lambda>w. 0 < w) (req_widths r)"
    using cli_request_widths [of parse int_of a out r]
          cli_parse_widths_pos [of int_of "arg_widths a"]
    by simp
  have 2: "advanced_options int_of u ans = (out, Request r)
      \<and> literals_positive int_of (advanced_tokens ans)
     \<longrightarrow> req_widths r \<noteq> [] \<and> list_all (\<lambda>w. 0 < w) (req_widths r)"
    using advanced_options_widths [of int_of u ans out r]
          map_filter_token_width_pos [of int_of "advanced_tokens ans"]
    by metis
  have 3: "handle_menu_selection parse int_of choice ans = (out, Request r)
      \<and> literals_positive int_of (custom_tokens ans)
      \<and> literals_positive int_of (advanced_tokens ans)
     \<longrightarrow> list_all (\<lambda>w. 0 < w) (req_widths r)"
  proof (rule impI)
    assume h: "handle_menu_selection parse int_of choice ans = (out, Request r)
      \<and> literals_positive int_of (custom_tokens ans)
      \<and> literals_positive int_of (advanced_tokens ans)"
    then have c: "literals_positive int_of (custom_tokens ans)"
      and d: "literals_positive int_of (advanced_tokens ans)"
      by simp_all
    from h handle_menu_selection_widths [of parse int_of choice ans out r]
    consider "req_widths r = [1920]" | "req_widths r = [375, 768, 1920]" | "req_widths r = []"
      | "custom_widths int_of (py_strip (ans_custom ans)) = Some (req_widths r)"
      | out' where "advanced_options int_of (req_url r) ans = (out', Request r)"
      by blast
    then show "list_all (\<lambda>w. 0 < w) (req_widths r)"
    proof cases
      case 4
      then have "those (map int_of (custom_tokens ans)) = Some (req_widths r)"
        by (simp add: custom_widths_def custom_tokens_def comp_def)
      then show ?thesis using c by (rule those_pos)
    next
      case 5
      then show ?thesis
        using advanced_options_widths [of int_of "req_url r" ans out' r]
              map_filter_token_width_pos [OF d]
        by simp
    qed simp_all
  qed
  show ?thesis by (rule conjI [OF 1 conjI [OF 2 3]])
qed

theorem request_widths_positive_witness:
  "cli_request urlparse py_int example_args
     = ([], Request \<lparr>req_url = ''https://example.com'', req_widths = [375, 1024],
                     req_format = ''png'', req_dark = False, req_wait = ''networkidle'',
                     req_interactive = False\<rparr>)
   \<and> literals_positive py_int (cli_tokens (arg_widths example_args))
   \<and> advanced_options py_int ''https://example.com'' example_answers
     = ([], Request \<lparr>req_url = ''https://example.com'', req_widths = [768, 800],
                     req_format = ''gif'', req_dark = False, req_wait = ''networkidle'',
                     req_interactive = False\<rparr>)
   \<and> literals_positive py_int (advanced_tokens example_answers)
   \<and> handle_menu_selection urlparse py_int 2 example_answers
     = ([Info ''URL: https://example.com''],
        Request \<lparr>req_url = ''https://example.com'', req_widths = [1920, 375],
                 req_format = ''png'', req_dark = False, req_wait = ''networkidle'',
                 req_interactive = False\<rparr>)
   \<and> literals_positive py_int (custom_tokens example_answers)
   \<and> list_all (\<lambda>w. 0 < w) [375, 1024 :: int]
   \<and> list_all (\<lambda>w. 0 < w) [768, 800 :: int]
   \<and> list_all (\<lambda>w. 0 < w) [1920, 375 :: int]"
proof -
  let ?r1 = "\<lparr>req_url = ''https://example.com'', req_widths = [375, 1024],
              req_format = ''png'', req_dark = False, req_wait = ''networkidle'',
              req_interactive = False\<rparr>"
  let ?r2 = "\<lparr>req_url = ''https://example.com'', req_widths = [768, 800],
              req_format = ''gif'', req_dark = False, req_wait = ''networkidle'',
              req_interactive = False\<rparr>"
  let ?r3 = "\<lparr>req_url = ''https://example.com'', req_widths = [1920, 375],
              req_format = ''png'', req_dark = False, req_wait = ''networkidle'',
              req_interactive = False\<rparr>"
  have c1: "cli_request urlparse py_int example_args = ([], Request ?r1)"
    by code_simp
  have p1: "literals_positive py_int (cli_tokens (arg_widths example_args))"
    by code_simp
  have c2: "advanced_options py_int ''https://example.com'' example_answers = ([], Request ?r2)"
    by code_simp
  have p2: "literals_positive py_int (advanced_tokens example_answers)"
    by code_simp
  have c3: "handle_menu_selection urlparse py_int 2 example_answers
              = ([Info ''URL: https://example.com''], Request ?r3)"
    by code_simp
  have p3: "literals_positive py_int (custom_tokens example_answers)"
    by code_simp
  have w1: "list_all (\<lambda>w. 0 < w) [375, 1024 :: int]"
    using request_widths_positive
            [where parse = urlparse and int_of = py_int and a = example_args
               and out = "[]" and r = ?r1] c1 p1
    by simp
  have w2: "list_all (\<lambda>w. 0 < w) [768, 800 :: int]"
    using request_widths_positive
            [where int_of = py_int and u = "''https://example.com''" and ans = example_answers
               and out = "[]" and r = ?r2] c2 p2
    by simp
  have w3: "list_all (\<lambda>w. 0 < w) [1920, 375 :: int]"
    using request_widths_positive
            [where parse = urlparse and int_of = py_int and choice = 2
               and ans = example_answers and out = "[Info ''URL: https://example.com'']"
               and r = ?r3] c3 p2 p3
    by simp
  from c1 p1 c2 p2 c3 p3 w1 w2 w3 show ?thesis by (intro conjI)
qed

section \<open>Formats\<close>

lemma cli_format_valid:
  "fst (cli_format f) \<in> {''png'', ''jpeg'', ''webp''}"
  by (auto simp: cli_format_def Let_def)

lemma menu_request_format:
  "menu_request u ans widths = (out, Request r) \<Longrightarrow>
   out = [] \<and> req_format r \<in> {''png'', ''jpeg'', ''webp''}"
  by (auto simp: menu_request_def Let_def split: if_splits)

text \<open>
  Claim C4 holds on the command line and fails in the interactive prompts. \<open>cli_mode\<close>
  replaces the format \<open>gif\<close> by \<open>png\<close> and warns. The first three menu choices
  replace it by \<open>png\<close> and print no warning. \<open>advanced_options\<close> has no check: the
  request keeps the format \<open>gif\<close>, which is none of the three formats.
\<close>

theorem advanced_options_format_unchecked:
  "cli_format ''gif'' = (''png'', [Warning ''Invalid format: gif, using png''])
   \<and> handle_menu_selection urlparse py_int 0 example_answers
     = ([Info ''URL: https://example.com''],
        Request \<lparr>req_url = ''https://example.com'', req_widths = [1920],
                 req_format = ''png'', req_dark = False, req_wait = ''networkidle'',
                 req_interactive = False\<rparr>)
   \<and> handle_menu_selection urlparse py_int 3 example_answers
     = ([Info ''URL: https://example.com''],
        Request \<lparr>req_url = ''https://example.com'', req_widths = [768, 800],
                 req_format = ''gif'', req_dark = False, req_wait = ''networkidle'',
                 req_interactive = False\<rparr>)
   \<and> ''gif'' \<notin> {''png'', ''jpeg'', ''webp''}"
  by code_simp

section \<open>Properties of the batch captures\<close>

lemma path_suffix_ext:
  assumes "x \<noteq> []" and "ext \<noteq> []" and "CHR ''.'' \<notin> set ext"
  shows "path_suffix (x @ CHR ''.'' # ext) = CHR ''.'' # ext"
proof -
  have "takeWhile (\<lambda>c. c \<noteq> CHR ''.'') (rev (x @ CHR ''.'' # ext)) = rev ext"
    using assms(3) by (auto simp: takeWhile_tail)
  then show ?thesis using assms(1,2) by (simp add: path_suffix_def Let_def)
qed

lemma with_suffix_ext:
  assumes "x \<noteq> []" and "ext \<noteq> []" and "CHR ''.'' \<notin> set ext"
  shows "with_suffix (x @ CHR ''.'' # ext) sfx = x @ sfx"
  using path_suffix_ext [OF assms] by (simp add: with_suffix_def)

lemma lower_formats:
  "py_lower ''.png'' = ''.png''" "py_lower ''.jpeg'' = ''.jpeg''" "py_lower ''.webp'' = ''.webp''"
  by code_simp+

lemma output_name_suffix:
  assumes "fmt \<in> {''png'', ''jpeg'', ''webp''}" and "x \<noteq> []"
  shows "py_lower (path_suffix (x @ ''.'' @ fmt)) = ''.'' @ fmt"
proof -
  from assms(1) have "fmt \<noteq> []" "CHR ''.'' \<notin> set fmt" by auto
  then have "path_suffix (x @ CHR ''.'' # fmt) = CHR ''.'' # fmt"
    using assms(2) by (intro path_suffix_ext)
  then show ?thesis using assms(1) lower_formats by auto
qed

lemma capture_screenshot_result:
  assumes "fmt \<in> {''png'', ''jpeg'', ''webp''}" and "x \<noteq> []"
  shows "fst (capture_screenshot e (x @ ''.'' @ fmt) st) = captured e fmt"
proof -
  have s: "py_lower (path_suffix (x @ ''.'' @ fmt)) = ''.'' @ fmt"
    using assms by (rule output_name_suffix)
  show ?thesis
    using assms(1) s
    by (cases "browser e"; cases "convert e")
       (auto simp: capture_screenshot_def captured_def convert_to_webp_def Let_def)
qed

lemma capture_screenshot_file:
  assumes "fmt \<in> {''png'', ''jpeg'', ''webp''}" and "x \<noteq> []"
    and "captured e fmt" and "fmt = ''webp'' \<longrightarrow> \<not> keeps_png e"
  shows "x @ ''.'' @ fmt \<in> disk (snd (capture_screenshot e (x @ ''.'' @ fmt) st))"
proof -
  have s: "py_lower (path_suffix (x @ ''.'' @ fmt)) = ''.'' @ fmt"
    using assms(1,2) by (rule output_name_suffix)
  have "with_suffix (x @ CHR ''.'' # ''webp'') ''.png'' = x @ ''.png''"
    using assms(2) by (intro with_suffix_ext) simp_all
  then have w: "with_suffix (x @ ''.webp'') ''.png'' \<noteq> x @ ''.webp''"
    by simp
  show ?thesis
    using assms(1,3,4) s w
    by (cases "browser e"; cases "convert e")
       (auto simp: capture_screenshot_def captured_def keeps_png_def convert_to_webp_def Let_def
             say_def)
qed

lemma get_output_filename_name:
  assumes "parse u = Inr parsed"
  shows "get_output_filename parse now u width fmt =
           Inr ((host_stem (netloc parsed) @ ''_'' @ py_str width @ ''px_'' @ now) @ ''.'' @ fmt)"
  using assms by (simp add: get_output_filename_def sanitize_filename_host_stem)

lemma batch_loop_step:
  assumes "get_output_filename parse (timestamp (envs i)) u width fmt = Inr p"
    and "capture_screenshot (envs i) p (say [Info (''Capturing '' @ py_str width @ ''px...'')] st)
           = (ok, st1)"
  shows "batch_loop parse envs u fmt (width # widths) i k st =
           (if ok
            then (if p \<in> disk st1
                  then batch_loop parse envs u fmt widths (Suc i) (Suc k)
                         (say [Success (''Saved: '' @ p)] st1)
                  else Inl FileNotFoundError)
            else batch_loop parse envs u fmt widths (Suc i) k
                   (say [Error (''Failed: '' @ py_str width @ ''px'')] st1))"
  using assms by simp

lemma upt_shift: "[i..<i + Suc n] = i # [Suc i..<Suc i + n]"
proof -
  have "i < i + Suc n" by simp
  then have "[i..<i + Suc n] = i # [Suc i..<i + Suc n]" by (rule upt_conv_Cons)
  moreover have "i + Suc n = Suc i + n" by simp
  ultimately show ?thesis by (simp only:)
qed

text \<open>
  What holds of the batch loop: when the format is written directly, or every conversion
  to \<open>webp\<close> that is reached produces its file, the loop ends without an exception
  whatever the browser does at each width, and it counts the captures that returned
  \<open>True\<close>.
\<close>

lemma batch_loop_isolated:
  assumes "parse u = Inr parsed" and "fmt \<in> {''png'', ''jpeg'', ''webp''}"
    and "\<forall>j. fmt = ''webp'' \<longrightarrow> \<not> keeps_png (envs j)"
  shows "\<exists>st'. batch_loop parse envs u fmt widths i k st =
           Inr (k + length (filter (\<lambda>j. captured (envs j) fmt) [i..<i + length widths]), st')"
proof (induction widths arbitrary: i k st)
  case Nil
  show ?case by simp
next
  case (Cons width widths)
  let ?x = "host_stem (netloc parsed) @ ''_'' @ py_str width @ ''px_'' @ timestamp (envs i)"
  let ?p = "?x @ ''.'' @ fmt"
  let ?st = "say [Info (''Capturing '' @ py_str width @ ''px...'')] st"
  let ?rest = "length (filter (\<lambda>j. captured (envs j) fmt) [Suc i..<Suc i + length widths])"
  have name: "get_output_filename parse (timestamp (envs i)) u width fmt = Inr ?p"
    using assms(1) by (rule get_output_filename_name)
  have x: "?x \<noteq> []" by simp
  obtain ok st1 where c: "capture_screenshot (envs i) ?p ?st = (ok, st1)"
    by (cases "capture_screenshot (envs i) ?p ?st") blast
  have ok: "ok = captured (envs i) fmt"
    using capture_screenshot_result [OF assms(2) x, of "envs i" ?st] c by simp
  have count: "length (filter (\<lambda>j. captured (envs j) fmt) [i..<i + length (width # widths)])
                 = (if ok then Suc ?rest else ?rest)"
  proof -
    have l: "length (width # widths) = Suc (length widths)" by simp
    have e: "[i..<i + length (width # widths)] = i # [Suc i..<Suc i + length widths]"
      by (simp only: l upt_shift)
    show ?thesis
    proof (cases ok)
      case True
      then have "captured (envs i) fmt" using ok by simp
      then show ?thesis using True by (simp only: e filter.simps if_True) simp
    next
      case False
      then have "\<not> captured (envs i) fmt" using ok by simp
      then show ?thesis using False by (simp only: e filter.simps if_False)
    qed
  qed
  note step = batch_loop_step [where envs = envs and i = i and widths = widths and k = k,
                               OF name c]
  show ?case
  proof (cases ok)
    case True
    then have "captured (envs i) fmt" using ok by simp
    moreover have "fmt = ''webp'' \<longrightarrow> \<not> keeps_png (envs i)" using assms(3) by blast
    ultimately have "?p \<in> disk (snd (capture_screenshot (envs i) ?p ?st))"
      by (intro capture_screenshot_file [OF assms(2) x])
    then have f: "?p \<in> disk st1" using c by simp
    obtain st' where "batch_loop parse envs u fmt widths (Suc i) (Suc k)
                        (say [Success (''Saved: '' @ ?p)] st1) = Inr (Suc k + ?rest, st')"
      using Cons.IH by blast
    then have "batch_loop parse envs u fmt (width # widths) i k st = Inr (Suc k + ?rest, st')"
      using step True f by (simp only: if_True)
    then show ?thesis using count True by (simp only: if_True add_Suc add_Suc_right) blast
  next
    case False
    obtain st' where "batch_loop parse envs u fmt widths (Suc i) k
                        (say [Error (''Failed: '' @ py_str width @ ''px'')] st1) = Inr (k + ?rest, st')"
      using Cons.IH by blast
    then have "batch_loop parse envs u fmt (width # widths) i k st = Inr (k + ?rest, st')"
      using step False by (simp only: if_False)
    then show ?thesis using count False by (simp only: if_False) blast
  qed
qed

lemma validate_url_parses:
  assumes "validate_url parse raw = Some u"
  shows "\<exists>parsed. parse u = Inr parsed"
  using assms by (auto simp: validate_url_unfold split: sum.splits if_splits)

lemma cli_batch_isolated:
  assumes "validate_url parse raw = Some (req_url r)"
    and "req_format r \<in> {''png'', ''jpeg'', ''webp''}"
    and "\<forall>j. req_format r = ''webp'' \<longrightarrow> \<not> keeps_png (envs j)"
  shows "\<exists>st'. cli_batch parse envs r st = Inr st' \<and>
           last (printed st') =
             Plain (''Completed: '' @
                    py_str (int (length (filter (\<lambda>j. captured (envs j) (req_format r))
                                           [0..<length (req_widths r)]))) @
                    ''/'' @ py_str (int (length (req_widths r))) @ '' screenshots'')"
proof -
  from assms(1) obtain parsed where p: "parse (req_url r) = Inr parsed"
    using validate_url_parses by blast
  obtain st1 where
    "batch_loop parse envs (req_url r) (req_format r) (req_widths r) 0 0 st =
       Inr (0 + length (filter (\<lambda>j. captured (envs j) (req_format r))
                          [0..<0 + length (req_widths r)]), st1)"
    using batch_loop_isolated
            [where parse = parse and u = "req_url r" and fmt = "req_format r" and envs = envs
               and widths = "req_widths r" and i = 0 and k = 0 and st = st, OF p assms(2,3)]
    by blast
  then show ?thesis
    by (simp add: cli_batch_def say_def)
qed

text \<open>
  Claim C7 holds inside \<open>capture_screenshot\<close> and fails for the capture as a whole. For
  \<open>webp\<close> the screenshot goes to a PNG; when the tool converts it the PNG is deleted and
  the \<open>webp\<close> file stays; when the tool is missing the PNG is kept, two messages are
  printed and \<open>capture_screenshot\<close> returns \<open>True\<close>. The batch loop then asks for the
  size of the \<open>webp\<close> file, which was never written: \<open>FileNotFoundError\<close> leaves
  \<open>cli_mode\<close>, and the run ends in an error.
\<close>

theorem webp_without_tool_fails:
  "get_output_filename urlparse (timestamp (no_convert_tool 0)) ''https://example.com'' 1920 ''webp''
     = Inr ''example-com_1920px_2024-01-02_030405.webp''
   \<and> capture_screenshot ((no_convert_tool 0)\<lparr>convert := Converted\<rparr>)
       ''example-com_1920px_2024-01-02_030405.webp'' empty_state
     = (True, \<lparr>disk = {''example-com_1920px_2024-01-02_030405.webp''}, printed = []\<rparr>)
   \<and> capture_screenshot (no_convert_tool 0)
       ''example-com_1920px_2024-01-02_030405.webp'' empty_state
     = (True,
        \<lparr>disk = {''example-com_1920px_2024-01-02_030405.png''},
         printed = [Error ''ImageMagick not found. Install with: brew install imagemagick'',
                    Info ''Keeping PNG file: example-com_1920px_2024-01-02_030405.png'']\<rparr>)
   \<and> cli_batch urlparse no_convert_tool (webp_request [1920]) empty_state
     = Inl FileNotFoundError"
  by code_simp

text \<open>
  Claim C6 holds while every capture that returns \<open>True\<close> has written its output file
  (lemma \<open>cli_batch_isolated\<close>): with the format \<open>png\<close>, a timeout at the first of two
  widths is reported, the second width is captured, and the summary is \<open>1/2\<close>. It fails
  for \<open>webp\<close> without the conversion tool: the same run ends at the second width with
  \<open>FileNotFoundError\<close>, which leaves the batch loop, and no summary is printed; with a
  browser that works at both widths the exception comes at the first width and the second
  is never attempted.
\<close>

theorem batch_aborts_on_kept_png:
  "cli_batch urlparse timeout_first (png_request [375, 1920]) empty_state
     = Inr \<lparr>disk = {''example-com_1920px_2024-01-02_030405.png''},
            printed = [Info ''Capturing 375px...'',
                       Error ''Screenshot failed: Timeout 60000ms exceeded.'',
                       Error ''Failed: 375px'',
                       Info ''Capturing 1920px...'',
                       Success ''Saved: example-com_1920px_2024-01-02_030405.png'',
                       Plain ''Completed: 1/2 screenshots'']\<rparr>
   \<and> cli_batch urlparse timeout_first (webp_request [375, 1920]) empty_state
     = Inl FileNotFoundError
   \<and> batch_loop urlparse no_convert_tool ''https://example.com'' ''webp'' [375, 1920] 0 0
       empty_state
     = Inl FileNotFoundError
   \<and> batch_loop urlparse no_convert_tool ''https://example.com'' ''webp'' [375] 0 0 empty_state
     = Inl FileNotFoundError"
  by code_simp

end
